theory Spec2Isabelle
  imports Main
begin

section \<open>Data model of the playground component\<close>

text \<open>
  The component \<^verbatim>\<open>LoxPlayground\<close> keeps two pieces of React state, the message list
  \<^verbatim>\<open>messages\<close> (the Session Log) and the program text \<^verbatim>\<open>code\<close> (the Source Buffer).
  Everything it touches outside itself is written out here: the values the runtime may
  throw, the browser console, and the two impure host calls \<^verbatim>\<open>crypto.randomUUID()\<close>
  and \<^verbatim>\<open>new Date()\<close>.
\<close>

datatype MessageType = Print | Error

text \<open>
  \<^verbatim>\<open>type Message = {id: string, type: MessageType, text?: string, occurredAt: Date}\<close>.
  The optional \<^verbatim>\<open>text\<close> is an option; a date is its time value in milliseconds.
\<close>

record Message =
  id_msg :: string
  type_msg :: MessageType
  text_msg :: "string option"
  occurredAt :: int

text \<open>
  What \<^verbatim>\<open>catch (exception: unknown)\<close> can receive. \<open>JsError m\<close> is an instance of
  \<^verbatim>\<open>Error\<close> whose \<^verbatim>\<open>message\<close> is \<open>m\<close>; \<open>JsString\<close> is a primitive string; the other
  constructors are the values that are neither. \<open>JsObject m\<close> is an object that is not an
  instance of \<^verbatim>\<open>Error\<close>, with \<open>m\<close> its \<^verbatim>\<open>message\<close> property when it has one. The handler
  never looks inside a number, a boolean or such an object, so their payload is kept
  only for the console.
\<close>

datatype exception =
    JsError string
  | JsString string
  | JsNumber int
  | JsBoolean bool
  | JsUndefined
  | JsNull
  | JsObject "string option"

text \<open>The result of JavaScript's \<^verbatim>\<open>typeof\<close> on such a value.\<close>

fun typeof :: "exception \<Rightarrow> string" where
  "typeof (JsError m) = ''object''"
| "typeof (JsString s) = ''string''"
| "typeof (JsNumber n) = ''number''"
| "typeof (JsBoolean b) = ''boolean''"
| "typeof JsUndefined = ''undefined''"
| "typeof JsNull = ''object''"
| "typeof (JsObject m) = ''object''"

text \<open>
  A failure is opaque when neither \<^verbatim>\<open>exception instanceof Error\<close> nor
  \<^verbatim>\<open>typeof exception === "string"\<close> holds.
\<close>

fun opaque :: "exception \<Rightarrow> bool" where
  "opaque (JsError m) = False"
| "opaque (JsString s) = False"
| "opaque x = True"

datatype console_line = ConsoleError exception | ConsoleLog string

text \<open>
  The host outside the component. The \<open>k\<close>-th call of \<^verbatim>\<open>crypto.randomUUID()\<close> since page
  load returns \<open>randomUUID e k\<close> and the \<open>k\<close>-th \<^verbatim>\<open>new Date()\<close> returns \<open>newDate e k\<close>; the
  record \<open>host\<close> counts the calls made so far and holds the console output.
\<close>

record env =
  randomUUID :: "nat \<Rightarrow> string"
  newDate :: "nat \<Rightarrow> int"

record host =
  uuid_calls :: nat
  date_calls :: nat
  console :: "console_line list"

text \<open>
  The runtime \<^verbatim>\<open>wasm.run(code, callback)\<close> is external. A call is observed through the
  strings it passes to the callback, in call order, and through how it ends: it returns
  (\<open>None\<close>) or throws a value.
\<close>

type_synonym behaviour = "string list \<times> exception option"

type_synonym runtime = "string \<Rightarrow> behaviour"

record page =
  messages :: "Message list"
  code :: string
  host :: host

text \<open>An entry of \<^verbatim>\<open>examples.json\<close>: \<^verbatim>\<open>{name, code}\<close>.\<close>

record example =
  name_ex :: string
  code_ex :: string

section \<open>The run action\<close>

text \<open>
  \<^verbatim>\<open>emittedMessages.push({id: crypto.randomUUID(), type: t, text: txt, occurredAt: new Date()})\<close>:
  one draw from each host call, one message at the end of the buffer.
\<close>

definition push :: "env \<Rightarrow> MessageType \<Rightarrow> string \<Rightarrow> Message list \<times> host \<Rightarrow> Message list \<times> host" where
  "push e t txt bh =
     (case bh of (buf, h) \<Rightarrow>
        (buf @ [\<lparr>id_msg = randomUUID e (uuid_calls h), type_msg = t, text_msg = Some txt,
                 occurredAt = newDate e (date_calls h)\<rparr>],
         h\<lparr>uuid_calls := Suc (uuid_calls h), date_calls := Suc (date_calls h)\<rparr>))"

text \<open>The print callback, once per string the runtime prints.\<close>

fun callback :: "env \<Rightarrow> string list \<Rightarrow> Message list \<times> host \<Rightarrow> Message list \<times> host" where
  "callback e [] bh = bh"
| "callback e (message # rest) bh = callback e rest (push e Print message bh)"

text \<open>
  The \<^verbatim>\<open>catch\<close> block: \<^verbatim>\<open>console.error(exception)\<close>, then one of three branches. The last
  branch only runs \<^verbatim>\<open>console.log(typeof exception)\<close>.
\<close>

definition catch :: "env \<Rightarrow> exception \<Rightarrow> Message list \<times> host \<Rightarrow> Message list \<times> host" where
  "catch e exc bh =
     (case bh of (buf, h) \<Rightarrow>
        let h1 = h\<lparr>console := console h @ [ConsoleError exc]\<rparr> in
        (case exc of
           JsError m \<Rightarrow> push e Error m (buf, h1)
         | JsString s \<Rightarrow> push e Error s (buf, h1)
         | _ \<Rightarrow> (buf, h1\<lparr>console := console h1 @ [ConsoleLog (typeof exc)]\<rparr>)))"

text \<open>
  The body of \<^verbatim>\<open>runCode\<close> before \<^verbatim>\<open>setMessages\<close>: a fresh buffer, the runtime call with
  the callback, and the handler when the call throws. The result is \<^verbatim>\<open>emittedMessages\<close>
  and the host afterwards.
\<close>

definition execute :: "env \<Rightarrow> runtime \<Rightarrow> string \<Rightarrow> host \<Rightarrow> Message list \<times> host" where
  "execute e rt src h =
     (case rt src of (prints, outcome) \<Rightarrow>
        (case outcome of
           None \<Rightarrow> callback e prints ([], h)
         | Some exc \<Rightarrow> catch e exc (callback e prints ([], h))))"

text \<open>
  \<^verbatim>\<open>setMessages([...messages, ...emittedMessages])\<close>. The closure reads \<^verbatim>\<open>messages\<close> and
  \<^verbatim>\<open>code\<close> of the latest render; every event handler below is followed by a render, so
  they are the fields of the current page.
\<close>

definition runCode :: "env \<Rightarrow> runtime \<Rightarrow> page \<Rightarrow> page" where
  "runCode e rt s =
     (case execute e rt (code s) (host s) of
        (emittedMessages, h) \<Rightarrow> s\<lparr>messages := messages s @ emittedMessages, host := h\<rparr>)"

section \<open>The other handlers\<close>

text \<open>
  The editor's change handler, \<^verbatim>\<open>(newCode) => setCode(newCode ?? "")\<close>, whose argument
  has type \<^verbatim>\<open>string | undefined\<close>.
\<close>

definition onChange :: "string option \<Rightarrow> page \<Rightarrow> page" where
  "onChange newCode s = s\<lparr>code := (case newCode of None \<Rightarrow> [] | Some t \<Rightarrow> t)\<rparr>"

text \<open>
  The selector's change handler,
  \<^verbatim>\<open>setCode(examples.find((example) => example.name === value)?.code ?? "")\<close>.
\<close>

definition onSelect :: "example list \<Rightarrow> string \<Rightarrow> page \<Rightarrow> page" where
  "onSelect examples v s =
     s\<lparr>code := (case find (\<lambda>ex. name_ex ex = v) examples of
                  None \<Rightarrow> []
                | Some ex \<Rightarrow> code_ex ex)\<rparr>"

text \<open>
  The first render: \<^verbatim>\<open>useState<Message[]>([])\<close> and \<^verbatim>\<open>useState(examples[0].code)\<close>. On an
  empty catalog \<^verbatim>\<open>examples[0]\<close> is \<^verbatim>\<open>undefined\<close> and reading \<^verbatim>\<open>.code\<close> throws.
\<close>

datatype error = TypeError

definition initial :: "example list \<Rightarrow> host \<Rightarrow> error + page" where
  "initial examples h =
     (case examples of
        [] \<Rightarrow> Inl TypeError
      | ex # _ \<Rightarrow> Inr \<lparr>messages = [], code = code_ex ex, host = h\<rparr>)"

section \<open>Sessions\<close>

text \<open>
  A session is the sequence of user events after the first render. Each run carries the
  runtime it observes, so two runs of the same text may behave differently.
\<close>

datatype event = Run runtime | Edit "string option" | Select string

fun step :: "env \<Rightarrow> example list \<Rightarrow> page \<Rightarrow> event \<Rightarrow> page" where
  "step e examples s (Run rt) = runCode e rt s"
| "step e examples s (Edit newCode) = onChange newCode s"
| "step e examples s (Select v) = onSelect examples v s"

fun session :: "env \<Rightarrow> example list \<Rightarrow> event list \<Rightarrow> page \<Rightarrow> page" where
  "session e examples [] s = s"
| "session e examples (ev # evs) s = session e examples evs (step e examples s ev)"

definition is_error :: "Message \<Rightarrow> bool" where
  "is_error m = (type_msg m = Error)"

text \<open>
  The log of a page is in step with the host when its identifiers are exactly the draws
  numbered \<open>c\<close> up to the host's current count.
\<close>

definition in_step :: "env \<Rightarrow> nat \<Rightarrow> page \<Rightarrow> bool" where
  "in_step e c s =
     (c \<le> uuid_calls (host s)
      \<and> map id_msg (messages s) = map (randomUUID e) [c ..< uuid_calls (host s)])"

section \<open>Sample inputs\<close>

text \<open>
  A host whose identifiers are \<^verbatim>\<open>u\<close>, \<^verbatim>\<open>uu\<close>, \<^verbatim>\<open>uuu\<close>, ... and whose clock ticks once per
  reading, and a runtime that plays the scenarios of the specification: a program that
  prints, one that fails with a structured error, one that fails with a bare string, and
  three that throw something else (a number, \<^verbatim>\<open>undefined\<close>, and a plain object with a
  \<^verbatim>\<open>message\<close> property).
\<close>

definition sample_env :: env where
  "sample_env = \<lparr>randomUUID = (\<lambda>k. replicate (Suc k) CHR ''u''), newDate = int\<rparr>"

definition sample_host :: host where
  "sample_host = \<lparr>uuid_calls = 0, date_calls = 0, console = []\<rparr>"

definition sample_runtime :: runtime where
  "sample_runtime src =
     (if src = ''print hi;'' then ([''hi''], None)
      else if src = ''print 1; print 2; print 1;'' then ([''1'', ''2'', ''1''], None)
      else if src = ''print x;'' then ([], Some (JsError ''Undefined variable x.''))
      else if src = ''print 1; print x;'' then ([''1''], Some (JsError ''Undefined variable x.''))
      else if src = ''recurse();'' then ([''down''], Some (JsString ''stack overflow''))
      else if src = ''throw 42'' then ([], Some (JsNumber 42))
      else if src = ''print 1; throw undefined'' then ([''1''], Some JsUndefined)
      else if src = ''throw {message: boom}'' then ([], Some (JsObject (Some ''boom'')))
      else ([], None))"

definition sample_examples :: "example list" where
  "sample_examples =
     [\<lparr>name_ex = ''Hello'', code_ex = ''print hi;''\<rparr>,
      \<lparr>name_ex = ''Fibonacci'', code_ex = ''print 1; print 2; print 1;''\<rparr>]"

definition sample_page :: page where
  "sample_page = \<lparr>messages = [], code = ''print 1; print x;'', host = sample_host\<rparr>"

section \<open>The buffer of one run\<close>

lemma callback_types:
  "map type_msg (fst (callback e prints (buf, h))) =
   map type_msg buf @ replicate (length prints) Print"
proof (induction prints arbitrary: buf h)
  case Nil
  show ?case by simp
next
  case (Cons p ps)
  show ?case
    by (simp add: push_def Cons.IH replicate_app_Cons_same)
qed

lemma callback_texts:
  "map text_msg (fst (callback e prints (buf, h))) = map text_msg buf @ map Some prints"
proof (induction prints arbitrary: buf h)
  case Nil
  show ?case by simp
next
  case (Cons p ps)
  show ?case
    by (simp add: push_def Cons.IH)
qed

lemma callback_console: "console (snd (callback e prints (buf, h))) = console h"
  by (induction prints arbitrary: buf h) (simp_all add: push_def)

lemma no_error_in_prints: "filter is_error xs = [] \<longleftrightarrow> Error \<notin> set (map type_msg xs)"
  by (induction xs) (auto simp: is_error_def)

lemma callback_no_errors: "filter is_error (fst (callback e prints ([], h))) = []"
  by (simp add: no_error_in_prints callback_types)

lemma catch_opaque:
  "opaque exc \<Longrightarrow> catch e exc (buf, h) =
     (buf, h\<lparr>console := console h @ [ConsoleError exc, ConsoleLog (typeof exc)]\<rparr>)"
  by (cases exc) (simp_all add: catch_def)


lemma catch_filter_recognised:
  "exc = JsError t \<or> exc = JsString t \<Longrightarrow>
   map text_msg (filter is_error (fst (catch e exc (buf, h)))) =
   map text_msg (filter is_error buf) @ [Some t]"
  by (auto simp: catch_def push_def is_error_def)

lemma execute_throws:
  "rt src = (prints, Some exc) \<Longrightarrow>
   execute e rt src h = catch e exc (callback e prints ([], h))"
  by (simp add: execute_def)

lemma execute_returns:
  "rt src = (prints, None) \<Longrightarrow> execute e rt src h = callback e prints ([], h)"
  by (simp add: execute_def)





text \<open>
  C3. When the runtime returns without throwing, the buffer of the run holds no Error
  message: it is one Print message per callback invocation, carrying the printed strings
  in the order of the calls.
\<close>

theorem run_without_failure_only_prints:
  assumes "rt src = (prints, None)"
  shows "filter is_error (fst (execute e rt src h)) = []
       \<and> map type_msg (fst (execute e rt src h)) = replicate (length prints) Print
       \<and> map text_msg (fst (execute e rt src h)) = map Some prints"
proof -
  have ex: "execute e rt src h = callback e prints ([], h)"
    using assms by (simp add: execute_def)
  have types: "map type_msg (fst (execute e rt src h)) = replicate (length prints) Print"
    by (simp add: ex callback_types)
  have texts: "map text_msg (fst (execute e rt src h)) = map Some prints"
    by (simp add: ex callback_texts)
  have "Error \<notin> set (map type_msg (fst (execute e rt src h)))"
    unfolding types by simp
  then have "filter is_error (fst (execute e rt src h)) = []"
    by (simp add: no_error_in_prints)
  with types texts show ?thesis by simp
qed

theorem run_without_failure_only_prints_witness:
  "sample_runtime ''print 1; print 2; print 1;'' = ([''1'', ''2'', ''1''], None)
   \<and> filter is_error (fst (execute sample_env sample_runtime ''print 1; print 2; print 1;'' sample_host)) = []
   \<and> map text_msg (fst (execute sample_env sample_runtime ''print 1; print 2; print 1;'' sample_host))
       = [Some ''1'', Some ''2'', Some ''1'']"
proof -
  have h: "sample_runtime ''print 1; print 2; print 1;'' = ([''1'', ''2'', ''1''], None)"
    by (simp add: sample_runtime_def)
  show ?thesis
    using h run_without_failure_only_prints
            [where rt = sample_runtime and src = "''print 1; print 2; print 1;''"
               and prints = "[''1'', ''2'', ''1'']" and e = sample_env and h = sample_host]
    by simp
qed

text \<open>
  C6. A run leaves the Source Buffer as it was, whatever the runtime does.
\<close>

theorem runCode_keeps_code: "code (runCode e rt s) = code s"
  by (simp add: runCode_def split: prod.splits)

text \<open>
  C9. When the editor reports \<^verbatim>\<open>undefined\<close>, the Source Buffer becomes the empty string.
\<close>

theorem onChange_undefined_gives_empty: "code (onChange None s) = []"
  by (simp add: onChange_def)

section \<open>Runs that fail\<close>

text \<open>
  C7, as the code has it. When the runtime throws an instance of \<^verbatim>\<open>Error\<close>, the buffer's
  only Error message carries that instance's \<^verbatim>\<open>message\<close> as its text; when it throws a
  bare string, the Error message carries that string.
\<close>

theorem error_text_verbatim:
  assumes "rt src = (prints, Some exc)"
    and "exc = JsError t \<or> exc = JsString t"
  shows "map text_msg (filter is_error (fst (execute e rt src h))) = [Some t]"
proof -
  obtain buf h' where cb: "callback e prints ([], h) = (buf, h')"
    by (cases "callback e prints ([], h)")
  have none: "filter is_error buf = []"
    using callback_no_errors [of e prints h] by (simp add: cb)
  have "execute e rt src h = catch e exc (buf, h')"
    using assms(1) by (simp add: execute_throws cb)
  then show ?thesis
    using catch_filter_recognised [OF assms(2), of e buf h'] none by simp
qed

theorem error_text_verbatim_witness:
  "sample_runtime ''print x;'' = ([], Some (JsError ''Undefined variable x.''))
   \<and> map text_msg (filter is_error (fst (execute sample_env sample_runtime ''print x;'' sample_host)))
       = [Some ''Undefined variable x.'']
   \<and> sample_runtime ''recurse();'' = ([''down''], Some (JsString ''stack overflow''))
   \<and> map text_msg (filter is_error (fst (execute sample_env sample_runtime ''recurse();'' sample_host)))
       = [Some ''stack overflow'']"
proof -
  have a: "sample_runtime ''print x;'' = ([], Some (JsError ''Undefined variable x.''))"
    by (simp add: sample_runtime_def)
  have b: "sample_runtime ''recurse();'' = ([''down''], Some (JsString ''stack overflow''))"
    by (simp add: sample_runtime_def)
  have "map text_msg (filter is_error (fst (execute sample_env sample_runtime ''print x;'' sample_host)))
          = [Some ''Undefined variable x.'']"
    by (rule error_text_verbatim [where rt = sample_runtime and src = "''print x;''", OF a]) simp
  moreover have "map text_msg (filter is_error (fst (execute sample_env sample_runtime ''recurse();'' sample_host)))
          = [Some ''stack overflow'']"
    by (rule error_text_verbatim [where rt = sample_runtime and src = "''recurse();''", OF b]) simp
  ultimately show ?thesis using a b by simp
qed

text \<open>
  The claim as written, for every failure that has a message field, fails on a thrown
  object that is not an instance of \<^verbatim>\<open>Error\<close>: the handler tests \<^verbatim>\<open>instanceof Error\<close>, so
  an object \<^verbatim>\<open>{message: "boom"}\<close> takes the last branch and the buffer holds no Error
  message carrying its text.
\<close>

theorem message_field_without_Error_instance:
  "sample_runtime ''throw {message: boom}'' = ([], Some (JsObject (Some ''boom'')))
   \<and> map text_msg (filter is_error
         (fst (execute sample_env sample_runtime ''throw {message: boom}'' sample_host))) = []
   \<and> map text_msg (filter is_error
         (fst (execute sample_env sample_runtime ''throw {message: boom}'' sample_host)))
       \<noteq> [Some ''boom'']
   \<and> console (snd (execute sample_env sample_runtime ''throw {message: boom}'' sample_host))
       = [ConsoleError (JsObject (Some ''boom'')), ConsoleLog ''object'']"
  by (simp add: sample_runtime_def execute_def catch_def sample_host_def)




text \<open>
  C1, as the code has it. When the runtime throws an opaque failure, the buffer gains no
  Error message: it holds the Print messages emitted before the failure and nothing
  else. The failure is reported on the console only, by \<^verbatim>\<open>console.error\<close> with the thrown
  value and by \<^verbatim>\<open>console.log\<close> with its \<^verbatim>\<open>typeof\<close>.
\<close>

theorem opaque_failure_console_only:
  assumes "rt src = (prints, Some exc)"
    and "opaque exc"
  shows "filter is_error (fst (execute e rt src h)) = []
       \<and> map text_msg (fst (execute e rt src h)) = map Some prints
       \<and> console (snd (execute e rt src h)) = console h @ [ConsoleError exc, ConsoleLog (typeof exc)]"
proof -
  obtain buf h1 where cb: "callback e prints ([], h) = (buf, h1)"
    by (cases "callback e prints ([], h)")
  have ex: "execute e rt src h =
              (buf, h1\<lparr>console := console h1 @ [ConsoleError exc, ConsoleLog (typeof exc)]\<rparr>)"
    using assms by (simp add: execute_throws cb catch_opaque)
  have none: "filter is_error buf = []"
    using callback_no_errors [of e prints h] by (simp add: cb)
  have texts: "map text_msg buf = map Some prints"
    using callback_texts [of e prints "[]" h] by (simp add: cb)
  have cons: "console h1 = console h"
    using callback_console [of e prints "[]" h] by (simp add: cb)
  from none texts cons show ?thesis
    by (simp add: ex)
qed

theorem opaque_failure_console_only_witness:
  "sample_runtime ''throw 42'' = ([], Some (JsNumber 42))
   \<and> opaque (JsNumber 42)
   \<and> filter is_error (fst (execute sample_env sample_runtime ''throw 42'' sample_host)) = []
   \<and> console (snd (execute sample_env sample_runtime ''throw 42'' sample_host))
       = [ConsoleError (JsNumber 42), ConsoleLog ''number'']"
proof -
  have a: "sample_runtime ''throw 42'' = ([], Some (JsNumber 42))"
    by (simp add: sample_runtime_def)
  have b: "opaque (JsNumber 42)"
    by simp
  show ?thesis
    using a b opaque_failure_console_only
                [where rt = sample_runtime and src = "''throw 42''", OF a b, of sample_env sample_host]
    by (simp add: sample_host_def)
qed

text \<open>
  The claim as written fails: a runtime that throws the number 42 leaves the buffer of
  the run empty, so the log gains no Error message at all.
\<close>

theorem opaque_failure_no_message:
  "sample_runtime ''throw 42'' = ([], Some (JsNumber 42))
   \<and> fst (execute sample_env sample_runtime ''throw 42'' sample_host) = []
   \<and> length (filter is_error (fst (execute sample_env sample_runtime ''throw 42'' sample_host))) \<noteq> 1
   \<and> messages (runCode sample_env sample_runtime (sample_page\<lparr>code := ''throw 42''\<rparr>)) = []"
  by (simp add: sample_runtime_def execute_def catch_def runCode_def sample_page_def)

text \<open>
  C10. Every message of a run's buffer has its text present: no entry of the buffer has
  the text \<open>None\<close>, on the Print path and on both Error paths.
\<close>

theorem buffer_texts_defined: "None \<notin> set (map text_msg (fst (execute e rt src h)))"
proof -
  obtain prints outcome where r: "rt src = (prints, outcome)"
    by (cases "rt src")
  obtain buf h1 where cb: "callback e prints ([], h) = (buf, h1)"
    by (cases "callback e prints ([], h)")
  have texts: "map text_msg buf = map Some prints"
    using callback_texts [of e prints "[]" h] by (simp add: cb)
  have front: "None \<notin> set (map text_msg buf)"
    unfolding texts by auto
  show ?thesis
  proof (cases outcome)
    case None
    with r have "execute e rt src h = (buf, h1)"
      by (simp add: execute_returns cb)
    with front show ?thesis by simp
  next
    case (Some exc)
    with r have ex: "execute e rt src h = catch e exc (buf, h1)"
      by (simp add: execute_throws cb)
    have "set (map text_msg (fst (catch e exc (buf, h1)))) \<subseteq> set (map text_msg buf) \<union> range Some"
      by (cases exc) (auto simp: catch_def push_def)
    with front show ?thesis
      unfolding ex by blast
  qed
qed

section \<open>The log across runs\<close>

lemma runCode_messages:
  "messages (runCode e rt s) = messages s @ fst (execute e rt (code s) (host s))"
  by (simp add: runCode_def split: prod.splits)

lemma step_appends: "\<exists>batch. messages (step e examples s ev) = messages s @ batch"
  by (cases ev) (simp_all add: runCode_messages onChange_def onSelect_def)

lemma session_appends: "\<exists>added. messages (session e examples evs s) = messages s @ added"
proof (induction evs arbitrary: s)
  case Nil
  show ?case by simp
next
  case (Cons ev evs)
  obtain batch where b: "messages (step e examples s ev) = messages s @ batch"
    using step_appends by blast
  obtain added where "messages (session e examples evs (step e examples s ev)) =
      messages (step e examples s ev) @ added"
    using Cons.IH by blast
  with b show ?case by simp
qed

text \<open>
  C4. A run sets the log to the previous log followed by the whole buffer of that run,
  in one update. Over any sequence of events the log a session started with stays in
  front, every message in its place: nothing is dropped, moved or merged.
\<close>

theorem log_append_only:
  "messages (runCode e rt s) = messages s @ fst (execute e rt (code s) (host s))
   \<and> take (length (messages s)) (messages (session e examples evs s)) = messages s
   \<and> length (messages s) \<le> length (messages (session e examples evs s))"
proof -
  obtain added where "messages (session e examples evs s) = messages s @ added"
    using session_appends by blast
  then show ?thesis
    by (simp add: runCode_messages)
qed

section \<open>Identifiers\<close>

text \<open>
  Every message takes the next draw of \<^verbatim>\<open>crypto.randomUUID()\<close> and nothing else draws,
  so the identifiers of a buffer are the draws made while it was filled, in order.
\<close>

lemma callback_ids:
  "map id_msg (fst (callback e prints (buf, h))) =
     map id_msg buf @ map (randomUUID e) [uuid_calls h ..< uuid_calls h + length prints]
   \<and> uuid_calls (snd (callback e prints (buf, h))) = uuid_calls h + length prints"
proof (induction prints arbitrary: buf h)
  case Nil
  show ?case by simp
next
  case (Cons p ps)
  have shift: "[uuid_calls h ..< uuid_calls h + length (p # ps)] =
               uuid_calls h # [Suc (uuid_calls h) ..< Suc (uuid_calls h) + length ps]"
    by (simp add: upt_conv_Cons del: upt_Suc)
  show ?case
    unfolding shift by (simp add: push_def Cons.IH del: upt_Suc)
qed

lemma catch_ids:
  "map id_msg (fst (catch e exc (buf, h))) =
     map id_msg buf @ map (randomUUID e) [uuid_calls h ..< uuid_calls (snd (catch e exc (buf, h)))]
   \<and> uuid_calls h \<le> uuid_calls (snd (catch e exc (buf, h)))"
  by (cases exc) (simp_all add: catch_def push_def)

lemma execute_ids:
  "map id_msg (fst (execute e rt src h)) =
     map (randomUUID e) [uuid_calls h ..< uuid_calls (snd (execute e rt src h))]
   \<and> uuid_calls h \<le> uuid_calls (snd (execute e rt src h))"
proof -
  obtain prints outcome where r: "rt src = (prints, outcome)"
    by (cases "rt src")
  obtain buf h1 where cb: "callback e prints ([], h) = (buf, h1)"
    by (cases "callback e prints ([], h)")
  have ids: "map id_msg buf = map (randomUUID e) [uuid_calls h ..< uuid_calls h1]"
    and cnt: "uuid_calls h1 = uuid_calls h + length prints"
    using callback_ids [of e prints "[]" h] by (simp_all add: cb)
  show ?thesis
  proof (cases outcome)
    case None
    with r have "execute e rt src h = (buf, h1)"
      by (simp add: execute_returns cb)
    with ids cnt show ?thesis by simp
  next
    case (Some exc)
    with r have ex: "execute e rt src h = catch e exc (buf, h1)"
      by (simp add: execute_throws cb)
    have le: "uuid_calls h \<le> uuid_calls h1"
      using cnt by simp
    have le2: "uuid_calls h1 \<le> uuid_calls (snd (catch e exc (buf, h1)))"
      using catch_ids [of e exc buf h1] by simp
    have "[uuid_calls h ..< uuid_calls (snd (catch e exc (buf, h1)))] =
          [uuid_calls h ..< uuid_calls h1] @ [uuid_calls h1 ..< uuid_calls (snd (catch e exc (buf, h1)))]"
      using le le2 by (metis le_Suc_ex upt_add_eq_append)
    then show ?thesis
      using catch_ids [of e exc buf h1] ids le le2 by (simp add: ex)
  qed
qed

lemma runCode_in_step:
  assumes "in_step e c s"
  shows "in_step e c (runCode e rt s)"
proof -
  obtain buf h1 where ex: "execute e rt (code s) (host s) = (buf, h1)"
    by (cases "execute e rt (code s) (host s)")
  have ids: "map id_msg buf = map (randomUUID e) [uuid_calls (host s) ..< uuid_calls h1]"
    and le: "uuid_calls (host s) \<le> uuid_calls h1"
    using execute_ids [of e rt "code s" "host s"] by (simp_all add: ex)
  have c: "c \<le> uuid_calls (host s)"
    and old: "map id_msg (messages s) = map (randomUUID e) [c ..< uuid_calls (host s)]"
    using assms by (simp_all add: in_step_def)
  have "[c ..< uuid_calls h1] = [c ..< uuid_calls (host s)] @ [uuid_calls (host s) ..< uuid_calls h1]"
    using c le by (metis le_Suc_ex upt_add_eq_append)
  with ids old c le show ?thesis
    by (simp add: in_step_def runCode_def ex)
qed

lemma step_in_step: "in_step e c s \<Longrightarrow> in_step e c (step e examples s ev)"
proof (cases ev)
  case (Run rt)
  assume "in_step e c s"
  with Run show ?thesis by (simp add: runCode_in_step)
next
  case (Edit newCode)
  assume "in_step e c s"
  with Edit show ?thesis by (simp add: in_step_def onChange_def)
next
  case (Select v)
  assume "in_step e c s"
  with Select show ?thesis by (simp add: in_step_def onSelect_def)
qed

lemma session_in_step: "in_step e c s \<Longrightarrow> in_step e c (session e examples evs s)"
  by (induction evs arbitrary: s) (simp_all add: step_in_step)

lemma initial_in_step: "initial examples h = Inr s \<Longrightarrow> in_step e (uuid_calls h) s"
  by (auto simp: initial_def in_step_def split: list.splits)

lemma sample_env_draws_differ: "inj_on (randomUUID sample_env) A"
proof (rule inj_onI)
  fix x y
  assume "randomUUID sample_env x = randomUUID sample_env y"
  then have "length (replicate (Suc x) CHR ''u'') = length (replicate (Suc y) CHR ''u'')"
    by (simp add: sample_env_def)
  then show "x = y" by simp
qed

text \<open>
  C5. From the first render on, over any sequence of runs, edits and selections, the
  identifiers of the messages in the log are pairwise distinct, given that the draws of
  \<^verbatim>\<open>crypto.randomUUID()\<close> made during the session differ from one another. Each message
  is given its own draw at emission and no draw is used twice.
\<close>

theorem log_ids_distinct:
  assumes "initial examples h = Inr s"
    and "inj_on (randomUUID e) {uuid_calls h ..< uuid_calls (host (session e examples evs s))}"
  shows "distinct (map id_msg (messages (session e examples evs s)))"
proof -
  have "in_step e (uuid_calls h) (session e examples evs s)"
    using assms(1) by (simp add: initial_in_step session_in_step)
  then have ids: "map id_msg (messages (session e examples evs s)) =
      map (randomUUID e) [uuid_calls h ..< uuid_calls (host (session e examples evs s))]"
    by (simp add: in_step_def)
  show ?thesis
    unfolding ids using assms(2) by (simp add: distinct_map)
qed

theorem log_ids_distinct_witness:
  "initial sample_examples sample_host = Inr (sample_page\<lparr>code := ''print hi;''\<rparr>)
   \<and> map id_msg (messages (session sample_env sample_examples
        [Run sample_runtime, Select ''Fibonacci'', Run sample_runtime, Edit (Some ''recurse();''),
         Run sample_runtime]
        (sample_page\<lparr>code := ''print hi;''\<rparr>)))
       = [''u'', ''uu'', ''uuu'', ''uuuu'', ''uuuuu'', ''uuuuuu'']
   \<and> distinct (map id_msg (messages (session sample_env sample_examples
        [Run sample_runtime, Select ''Fibonacci'', Run sample_runtime, Edit (Some ''recurse();''),
         Run sample_runtime]
        (sample_page\<lparr>code := ''print hi;''\<rparr>))))"
proof -
  have a: "initial sample_examples sample_host = Inr (sample_page\<lparr>code := ''print hi;''\<rparr>)"
    by (simp add: initial_def sample_examples_def sample_page_def)
  have b: "map id_msg (messages (session sample_env sample_examples
        [Run sample_runtime, Select ''Fibonacci'', Run sample_runtime, Edit (Some ''recurse();''),
         Run sample_runtime]
        (sample_page\<lparr>code := ''print hi;''\<rparr>)))
       = [''u'', ''uu'', ''uuu'', ''uuuu'', ''uuuuu'', ''uuuuuu'']"
    by (simp add: sample_page_def sample_host_def sample_examples_def sample_runtime_def
          sample_env_def runCode_def execute_def catch_def push_def onSelect_def onChange_def)
  show ?thesis
    using a b log_ids_distinct [where e = sample_env and evs =
        "[Run sample_runtime, Select ''Fibonacci'', Run sample_runtime, Edit (Some ''recurse();''),
          Run sample_runtime]", OF a sample_env_draws_differ]
    by simp
qed

section \<open>Selecting an example\<close>

lemma find_first_match:
  assumes "i < length xs" and "P (xs ! i)" and "\<forall>j<i. \<not> P (xs ! j)"
  shows "find P xs = Some (xs ! i)"
  using assms
proof (induction xs arbitrary: i)
  case Nil
  then show ?case by simp
next
  case (Cons x xs)
  show ?case
  proof (cases i)
    case 0
    with Cons.prems show ?thesis by simp
  next
    case (Suc k)
    have nx: "\<not> P x"
      using Cons.prems(3) Suc by auto
    have "find P xs = Some (xs ! k)"
    proof (rule Cons.IH)
      show "k < length xs" using Cons.prems(1) Suc by simp
      show "P (xs ! k)" using Cons.prems(2) Suc by simp
      show "\<forall>j<k. \<not> P (xs ! j)"
      proof (intro allI impI)
        fix j assume "j < k"
        then have "Suc j < i" using Suc by simp
        with Cons.prems(3) have "\<not> P ((x # xs) ! Suc j)" by blast
        then show "\<not> P (xs ! j)" by simp
      qed
    qed
    with nx Suc show ?thesis by simp
  qed
qed

text \<open>
  C8. Selecting by name the catalog entry at position \<open>i\<close>, the first entry that bears
  its name, sets the Source Buffer to that entry's code whatever the buffer held
  before, and leaves the Session Log as it was. On a catalog with at least one entry
  the first render starts from the code of entry 0 and an empty log.
\<close>

theorem select_example_replaces_code:
  assumes "i < length examples"
    and "\<forall>j<i. name_ex (examples ! j) \<noteq> name_ex (examples ! i)"
  shows "code (onSelect examples (name_ex (examples ! i)) s) = code_ex (examples ! i)
       \<and> messages (onSelect examples (name_ex (examples ! i)) s) = messages s
       \<and> initial examples h = Inr \<lparr>messages = [], code = code_ex (examples ! 0), host = h\<rparr>"
proof -
  have "find (\<lambda>ex. name_ex ex = name_ex (examples ! i)) examples = Some (examples ! i)"
    using assms by (intro find_first_match) simp_all
  then have sel: "code (onSelect examples (name_ex (examples ! i)) s) = code_ex (examples ! i)"
    by (simp add: onSelect_def)
  have log: "messages (onSelect examples (name_ex (examples ! i)) s) = messages s"
    by (simp add: onSelect_def)
  have "examples \<noteq> []"
    using assms(1) by auto
  then have "initial examples h = Inr \<lparr>messages = [], code = code_ex (examples ! 0), host = h\<rparr>"
    by (cases examples) (simp_all add: initial_def)
  with sel log show ?thesis by simp
qed

theorem select_example_replaces_code_witness:
  "(1::nat) < length sample_examples
   \<and> name_ex (sample_examples ! 0) \<noteq> name_ex (sample_examples ! 1)
   \<and> name_ex (sample_examples ! 1) = ''Fibonacci''
   \<and> code (onSelect sample_examples ''Fibonacci'' sample_page) = ''print 1; print 2; print 1;''
   \<and> messages (onSelect sample_examples ''Fibonacci'' sample_page) = messages sample_page
   \<and> initial sample_examples sample_host
       = Inr \<lparr>messages = [], code = ''print hi;'', host = sample_host\<rparr>"
proof -
  have a: "(1::nat) < length sample_examples"
    by (simp add: sample_examples_def)
  have b: "\<forall>j<1. name_ex (sample_examples ! j) \<noteq> name_ex (sample_examples ! 1)"
    by (simp add: sample_examples_def)
  have c: "name_ex (sample_examples ! 1) = ''Fibonacci''"
    by (simp add: sample_examples_def)
  have d: "code_ex (sample_examples ! 1) = ''print 1; print 2; print 1;''"
    by (simp add: sample_examples_def)
  have e: "code_ex (sample_examples ! 0) = ''print hi;''"
    by (simp add: sample_examples_def)
  have f: "name_ex (sample_examples ! 0) \<noteq> name_ex (sample_examples ! 1)"
    by (simp add: sample_examples_def)
  show ?thesis
    using a c d e f select_example_replaces_code [OF a b, of sample_page sample_host]
    by simp
qed

end
